theory Spec2Isabelle
  imports Complex_Main
begin

section \<open>Common data: errors, images, detections\<close>

text \<open>
  Python exceptions are values. \<open>ExternalError\<close> stands for whatever a collaborator
  (OpenCV, MTCNN, Keras, FFmpeg, the storage client, the operating system) may raise.
  Python floats are idealised as reals throughout.
\<close>

datatype py_error =
    FileNotFoundError
  | VideoOpenError
  | ZeroDivisionError
  | ValueError
  | IndexError
  | ExternalError string

type_synonym bytes = string

type_synonym bbox = "int \<times> int \<times> int \<times> int"

text \<open>An RGB image as numpy sees it: \<open>shape = (img_rows, img_cols, 3)\<close>; the pixel data
  is an opaque value.\<close>

record image =
  img_rows :: nat
  img_cols :: nat
  img_data :: nat

text \<open>One element of the list MTCNN returns. The source tests whether it is a dict,
  whether it has the key \<open>box\<close> and whether it has the key \<open>confidence\<close>.\<close>

datatype raw_detection =
    NotADict
  | DetDict (det_box: "bbox option") (det_confidence: "real option")

text \<open>One entry of \<open>results\<close> as \<open>analyze_bytes\<close> builds it. \<open>process_video\<close> reads
  \<open>det.get("bbox") or det.get("box")\<close>, so both keys are optional here.\<close>

record detection =
  det_id :: nat
  bbox :: "int list option"
  box :: "int list option"
  emotion :: string
  confidence :: real
  all_probs :: "(string \<times> real) list"

record analysis =
  num_faces :: nat
  results :: "detection list"

section \<open>analyzer.py\<close>

definition CLASS_NAMES :: "string list" where
  "CLASS_NAMES = [''angry'', ''disgust'', ''fear'', ''happy'', ''neutral'', ''sad'', ''surprise'']"

text \<open>The collaborators of the analyzer: PIL decoding, the MTCNN detector, and the
  network. \<open>predict img b\<close> is the raw score vector \<open>model.predict(x_input)[0]\<close> for the
  crop of \<open>img\<close> at \<open>b\<close> after \<open>preprocess_face\<close>.\<close>

record analyzer_env =
  pil_decode :: "bytes \<Rightarrow> py_error + image"
  mtcnn :: "image \<Rightarrow> py_error + raw_detection list"
  predict :: "image \<Rightarrow> bbox \<Rightarrow> py_error + real list"

definition read_image_to_rgb :: "analyzer_env \<Rightarrow> bytes \<Rightarrow> py_error + image" where
  "read_image_to_rgb env file_bytes =
     (case pil_decode env file_bytes of
        Inl e \<Rightarrow> Inl ValueError
      | Inr img \<Rightarrow> Inr img)"

text \<open>The body of the \<open>for det in detections\<close> loop of \<open>detect_faces\<close>.\<close>

fun collect_bboxes :: "raw_detection list \<Rightarrow> bbox list" where
  "collect_bboxes [] = []"
| "collect_bboxes (NotADict # dets) = collect_bboxes dets"
| "collect_bboxes (DetDict None c # dets) = collect_bboxes dets"
| "collect_bboxes (DetDict (Some (x, y, w, h)) c # dets) =
     (if (case c of Some p \<Rightarrow> p < 85 / 100 | None \<Rightarrow> False) then collect_bboxes dets
      else
        let x' = max 0 x; y' = max 0 y; w' = max 1 w; h' = max 1 h
        in if w' < 30 \<or> h' < 30 then collect_bboxes dets
           else (x', y', w', h') # collect_bboxes dets)"

definition detect_faces :: "analyzer_env \<Rightarrow> image \<Rightarrow> bbox list" where
  "detect_faces env img_rgb =
     (case mtcnn env img_rgb of
        Inl e \<Rightarrow> []
      | Inr detections \<Rightarrow> collect_bboxes detections)"

text \<open>Length of the Python slice \<open>[start:stop]\<close> of a sequence of length \<open>n\<close>.\<close>

definition slice_len :: "nat \<Rightarrow> int \<Rightarrow> int \<Rightarrow> nat" where
  "slice_len n start stop =
     (let norm = (\<lambda>i. if i < 0 then max 0 (i + int n) else min i (int n))
      in nat (norm stop - norm start))"

text \<open>\<open>roi = img_rgb[y:y+h, x:x+w]\<close> and its \<open>size\<close>.\<close>

definition roi_size :: "image \<Rightarrow> bbox \<Rightarrow> nat" where
  "roi_size img b =
     (case b of (x, y, w, h) \<Rightarrow>
        slice_len (img_rows img) y (y + h) * slice_len (img_cols img) x (x + w) * 3)"

text \<open>\<open>tf.nn.softmax\<close>, the normalised exponential.\<close>

definition softmax :: "real list \<Rightarrow> real list" where
  "softmax preds = map (\<lambda>v. exp v / sum_list (map exp preds)) preds"

text \<open>\<open>np.argmax\<close> on a non-empty vector: the first index of the maximum.\<close>

fun argmax :: "real list \<Rightarrow> nat" where
  "argmax [] = 0"
| "argmax [x] = 0"
| "argmax (x # xs) = (let i = argmax xs in if x < xs ! i then Suc i else 0)"

text \<open>What one face contributes: nothing when the crop is empty, an exception when the
  network raises or an index is out of range, otherwise one result.\<close>

definition classify_face :: "analyzer_env \<Rightarrow> image \<Rightarrow> nat \<Rightarrow> bbox \<Rightarrow> py_error + detection option" where
  "classify_face env img_rgb i b =
     (if roi_size img_rgb b = 0 then Inr None
      else case predict env img_rgb b of
        Inl e \<Rightarrow> Inl e
      | Inr preds \<Rightarrow>
          let probs = softmax preds in
          if probs = [] then Inl ValueError
          else
            let idx = argmax probs in
            if length CLASS_NAMES \<le> idx then Inl IndexError
            else if length probs < length CLASS_NAMES then Inl IndexError
            else Inr (Some \<lparr>
              det_id = i + 1,
              bbox = (case b of (x, y, w, h) \<Rightarrow> Some [x, y, w, h]),
              box = None,
              emotion = CLASS_NAMES ! idx,
              confidence = probs ! idx,
              all_probs = map (\<lambda>j. (CLASS_NAMES ! j, probs ! j)) [0..<length CLASS_NAMES] \<rparr>))"

text \<open>The loop \<open>for i, (x, y, w, h) in enumerate(bboxes)\<close>, started at index \<open>i\<close>.\<close>

fun classify_faces :: "analyzer_env \<Rightarrow> image \<Rightarrow> nat \<Rightarrow> bbox list \<Rightarrow> py_error + detection list" where
  "classify_faces env img_rgb i [] = Inr []"
| "classify_faces env img_rgb i (b # bs) =
     (case classify_face env img_rgb i b of
        Inl e \<Rightarrow> Inl e
      | Inr r \<Rightarrow>
          (case classify_faces env img_rgb (Suc i) bs of
             Inl e \<Rightarrow> Inl e
           | Inr rs \<Rightarrow> Inr (case r of None \<Rightarrow> rs | Some d \<Rightarrow> d # rs)))"

definition analyze_bytes :: "analyzer_env \<Rightarrow> bytes \<Rightarrow> py_error + analysis" where
  "analyze_bytes env file_bytes =
     (case read_image_to_rgb env file_bytes of
        Inl e \<Rightarrow> Inl e
      | Inr img_rgb \<Rightarrow>
          let bboxes = detect_faces env img_rgb in
          if bboxes = [] then Inr \<lparr> num_faces = 0, results = [] \<rparr>
          else
            (case classify_faces env img_rgb 0 bboxes of
               Inl e \<Rightarrow> Inl e
             | Inr rs \<Rightarrow> Inr \<lparr> num_faces = length rs, results = rs \<rparr>))"

text \<open>A raw detection that \<open>detect_faces\<close> treats as noise: confidence below 0.85, or
  width or height below 30.\<close>

definition is_noise :: "raw_detection \<Rightarrow> bool" where
  "is_noise d =
     (case d of
        NotADict \<Rightarrow> False
      | DetDict None c \<Rightarrow> False
      | DetDict (Some (x, y, w, h)) c \<Rightarrow>
          (case c of Some p \<Rightarrow> p < 85 / 100 | None \<Rightarrow> False) \<or> w < 30 \<or> h < 30)"

text \<open>A raw detection that passes both filters, and the box it is surfaced with.\<close>

definition passes :: "raw_detection \<Rightarrow> bool" where
  "passes d =
     (case d of
        NotADict \<Rightarrow> False
      | DetDict None c \<Rightarrow> False
      | DetDict (Some (x, y, w, h)) c \<Rightarrow>
          (case c of Some p \<Rightarrow> 85 / 100 \<le> p | None \<Rightarrow> True) \<and> 30 \<le> w \<and> 30 \<le> h)"

definition clamp_origin :: "bbox \<Rightarrow> bbox" where
  "clamp_origin b = (case b of (x, y, w, h) \<Rightarrow> (max 0 x, max 0 y, w, h))"

section \<open>Python built-ins\<close>

text \<open>Python's \<open>round\<close> to an integer (ties go to the even neighbour), \<open>round(x, 2)\<close>
  and \<open>int(x)\<close> (truncation towards zero), on floats read as exact reals.\<close>

definition py_round :: "real \<Rightarrow> int" where
  "py_round x =
     (let f = \<lfloor>x\<rfloor>; d = x - of_int f
      in if d < 1 / 2 then f else if 1 / 2 < d then f + 1 else if even f then f else f + 1)"

definition round2 :: "real \<Rightarrow> real" where
  "round2 x = of_int (py_round (x * 100)) / 100"

definition py_int :: "real \<Rightarrow> int" where
  "py_int x = (if 0 \<le> x then \<lfloor>x\<rfloor> else \<lceil>x\<rceil>)"

text \<open>\<open>s.replace(old, new)\<close> for a non-empty \<open>old\<close>: every occurrence, left to right.\<close>

function replace_str :: "string \<Rightarrow> string \<Rightarrow> string \<Rightarrow> string" where
  "replace_str old new [] = []"
| "replace_str old new (c # cs) =
     (if old \<noteq> [] \<and> take (length old) (c # cs) = old
      then new @ replace_str old new (drop (length old) (c # cs))
      else c # replace_str old new cs)"
  by pat_completeness auto
termination
  by (relation "measure (\<lambda>(old, new, s). length s)") (auto simp: neq_Nil_conv)

text \<open>\<open>os.path.basename\<close> (POSIX).\<close>

definition basename :: "string \<Rightarrow> string" where
  "basename p = rev (takeWhile (\<lambda>c. c \<noteq> CHR ''/'') (rev p))"

definition join_words :: "string list \<Rightarrow> string" where
  "join_words ws = (case ws of [] \<Rightarrow> [] | w # rest \<Rightarrow> foldl (\<lambda>acc v. acc @ '' '' @ v) w rest)"

definition quoted :: "string \<Rightarrow> string" where
  "quoted p = [CHR 0x22] @ p @ [CHR 0x22]"

section \<open>Frames and the environment of the pipeline\<close>

text \<open>A decoded frame: \<open>frame.shape\<close>, the pixel data (opaque) and what has been drawn on
  it. An overlay is one box with its label; the label text is
  \<open>emotion.upper()\<close> followed by the confidence as a percentage.\<close>

record overlay =
  ov_box :: bbox
  ov_color :: "nat \<times> nat \<times> nat"
  ov_label :: string
  ov_confidence :: real

record frame =
  shape :: "nat list"
  pixels :: nat
  overlays :: "overlay list"

text \<open>Everything \<open>process_video\<close> obtains from outside: the file system, the capture
  device, the JPEG encoder, \<open>analyze_bytes\<close> of the running process, the generated output
  name, FFmpeg, the storage upload, file removal and the clock.
  \<open>cap_reads\<close> is the sequence of \<open>(ret, frame)\<close> pairs \<open>cap.read()\<close> returns; after it the
  source is exhausted.\<close>

record video_env =
  path_exists :: "string \<Rightarrow> bool"
  cap_opened :: "string \<Rightarrow> bool"
  cap_fps :: real
  cap_reads :: "(bool \<times> frame option) list"
  imencode :: "frame \<Rightarrow> bytes option"
  analyze :: "bytes \<Rightarrow> py_error + analysis"
  new_output_path :: "string \<Rightarrow> string"
  which_ffmpeg :: "string option"
  subprocess_run :: "string \<Rightarrow> py_error + int"
  upload_to_gcs :: "string \<Rightarrow> string \<Rightarrow> py_error + string"
  os_remove :: "string \<Rightarrow> py_error option"
  clock_start :: real
  clock_end :: real

section \<open>uploader.py\<close>

text \<open>The fallback \<^verbatim>\<open>C:\ffmpeg\bin\ffmpeg.exe\<close>; \<open>CHR 0x5C\<close> is the backslash.\<close>

definition default_ffmpeg :: string where
  "default_ffmpeg =
     ''C:'' @ [CHR 0x5C] @ ''ffmpeg'' @ [CHR 0x5C] @ ''bin'' @ [CHR 0x5C] @ ''ffmpeg.exe''"

text \<open>\<open>shutil.which("ffmpeg") or "C:\\ffmpeg\\bin\\ffmpeg.exe"\<close>.\<close>

definition ffmpeg_path :: "video_env \<Rightarrow> string" where
  "ffmpeg_path env =
     (case which_ffmpeg env of
        None \<Rightarrow> default_ffmpeg
      | Some p \<Rightarrow> if p = [] then default_ffmpeg else p)"

text \<open>The shell command \<open>compress_video\<close> runs.\<close>

definition compress_command :: "video_env \<Rightarrow> string \<Rightarrow> string \<Rightarrow> string" where
  "compress_command env input_path compressed_path =
     join_words
       [ffmpeg_path env, ''-y'', ''-i'', quoted input_path,
        ''-b:v'', ''1500k'', ''-bufsize'', ''1500k'', quoted compressed_path]"

definition compress_video :: "video_env \<Rightarrow> string \<Rightarrow> string \<Rightarrow> string" where
  "compress_video env input_path output_path =
     (let compressed_path = replace_str ''.mp4'' ''_compressed.mp4'' output_path in
      if \<not> path_exists env input_path then output_path
      else
        case subprocess_run env (compress_command env input_path compressed_path) of
          Inl e \<Rightarrow> input_path
        | Inr returncode \<Rightarrow> if returncode \<noteq> 0 then input_path else compressed_path)"

section \<open>video\_processor.py\<close>

text \<open>The shell command \<open>merge_audio\<close> runs.\<close>

definition merge_command :: "video_env \<Rightarrow> string \<Rightarrow> string \<Rightarrow> string \<Rightarrow> string" where
  "merge_command env original_path processed_path final_path =
     join_words
       [ffmpeg_path env, ''-y'', ''-i'', quoted processed_path, ''-i'', quoted original_path,
        ''-c:v'', ''copy'', ''-map'', ''0:v:0'', ''-map'', ''1:a:0'', ''-shortest'',
        quoted final_path]"

definition merge_audio :: "video_env \<Rightarrow> string \<Rightarrow> string \<Rightarrow> string" where
  "merge_audio env original_path processed_path =
     (let final_path = replace_str ''.mp4'' ''_with_audio.mp4'' processed_path in
      if \<not> path_exists env original_path then processed_path
      else if \<not> path_exists env processed_path then processed_path
      else
        case subprocess_run env (merge_command env original_path processed_path final_path) of
          Inl e \<Rightarrow> processed_path
        | Inr returncode \<Rightarrow> if returncode \<noteq> 0 then processed_path else final_path)"

definition EMOTIONS :: "string list" where
  "EMOTIONS = [''angry'', ''disgust'', ''fear'', ''happy'', ''neutral'', ''sad'', ''surprise'']"

definition COLORS :: "(string \<times> nat \<times> nat \<times> nat) list" where
  "COLORS =
     [(''neutral'', (189, 195, 199)),
      (''happy'', (46, 204, 113)),
      (''surprise'', (241, 196, 15)),
      (''sad'', (52, 152, 219)),
      (''angry'', (231, 76, 60)),
      (''disgust'', (22, 160, 133)),
      (''fear'', (142, 68, 173))]"

definition upper_char :: "char \<Rightarrow> char" where
  "upper_char c =
     (let n = (of_char c :: nat) in if 97 \<le> n \<and> n \<le> 122 then char_of (n - 32) else c)"

text \<open>\<open>det.get("bbox") or det.get("box")\<close>, then the test
  \<open>not bbox or len(bbox) != 4\<close>: the four numbers of a usable box.\<close>

definition usable_bbox :: "detection \<Rightarrow> bbox option" where
  "usable_bbox det =
     (let b = (case bbox det of
                 None \<Rightarrow> box det
               | Some v \<Rightarrow> if v = [] then box det else Some v)
      in case b of
           Some [x, y, w, h] \<Rightarrow> Some (x, y, w, h)
         | _ \<Rightarrow> None)"

text \<open>Drawing one detection on a frame (rectangle, label background and text).\<close>

definition draw_detection :: "frame \<Rightarrow> detection \<Rightarrow> frame" where
  "draw_detection fr det =
     (case usable_bbox det of
        None \<Rightarrow> fr
      | Some b \<Rightarrow>
          fr\<lparr> overlays := overlays fr @
            [\<lparr> ov_box = b,
               ov_color = (case map_of COLORS (emotion det) of
                             None \<Rightarrow> (0, 255, 0) | Some col \<Rightarrow> col),
               ov_label = map upper_char (emotion det),
               ov_confidence = confidence det \<rparr>] \<rparr>)"

definition draw_all :: "detection list \<Rightarrow> frame \<Rightarrow> frame" where
  "draw_all dets fr = foldl draw_detection fr dets"

text \<open>\<open>if emotion in emotion_counts: emotion_counts[emotion] += 1\<close> on a dictionary kept
  as an association list with distinct keys.\<close>

definition incr :: "string \<Rightarrow> (string \<times> nat) list \<Rightarrow> (string \<times> nat) list" where
  "incr k counts = map (\<lambda>(k', v). if k' = k then (k', v + 1) else (k', v)) counts"

definition count_detection :: "(string \<times> nat) list \<Rightarrow> detection \<Rightarrow> (string \<times> nat) list" where
  "count_detection counts det =
     (case usable_bbox det of None \<Rightarrow> counts | Some b \<Rightarrow> incr (emotion det) counts)"

definition count_all :: "detection list \<Rightarrow> (string \<times> nat) list \<Rightarrow> (string \<times> nat) list" where
  "count_all dets counts = foldl count_detection counts dets"

text \<open>The variables of the frame loop, and the frames handed to \<open>out.write\<close> so far.\<close>

record loop_state =
  processed_frames :: nat
  analyzed_frames :: nat
  emotion_counts :: "(string \<times> nat) list"
  last_detections :: "detection list"
  written :: "frame list"

definition init_state :: loop_state where
  "init_state =
     \<lparr> processed_frames = 0, analyzed_frames = 0,
       emotion_counts = map (\<lambda>e. (e, 0)) EMOTIONS,
       last_detections = [], written = [] \<rparr>"

text \<open>\<open>fps = cap.get(cv2.CAP_PROP_FPS) or 25\<close> and \<open>frame_interval = int(fps * 2)\<close>.\<close>

definition source_fps :: "real \<Rightarrow> real" where
  "source_fps reported = (if reported = 0 then 25 else reported)"

definition frame_interval :: "real \<Rightarrow> int" where
  "frame_interval fps = py_int (fps * 2)"

text \<open>One iteration of the loop body for a valid frame, from
  \<open>processed_frames += 1\<close> on. \<open>sampled interval k\<close> is the test
  \<open>k % frame_interval == 0\<close>; \<open>%\<close> by zero raises.\<close>

definition sampled :: "int \<Rightarrow> nat \<Rightarrow> bool" where
  "sampled interval k = (int k mod interval = 0)"

definition process_frame :: "video_env \<Rightarrow> int \<Rightarrow> loop_state \<Rightarrow> frame \<Rightarrow> py_error + loop_state" where
  "process_frame env interval st fr =
     (let st1 = st\<lparr> processed_frames := processed_frames st + 1 \<rparr> in
      if interval = 0 then Inl ZeroDivisionError
      else if \<not> sampled interval (processed_frames st1) then
        Inr (st1\<lparr> written := written st1 @ [draw_all (last_detections st1) fr] \<rparr>)
      else
        let st2 = st1\<lparr> analyzed_frames := analyzed_frames st1 + 1 \<rparr> in
        case imencode env fr of
          None \<Rightarrow> Inr st2
        | Some buffer \<Rightarrow>
            (case analyze env buffer of
               Inl e \<Rightarrow> Inr (st2\<lparr> written := written st2 @ [fr] \<rparr>)
             | Inr result \<Rightarrow>
                 let detections = results result in
                 if detections \<noteq> [] then
                   Inr (st2\<lparr> last_detections := detections,
                            emotion_counts := count_all detections (emotion_counts st2),
                            written := written st2 @ [draw_all detections fr] \<rparr>)
                 else Inr (st2\<lparr> written := written st2 @ [fr] \<rparr>)))"

text \<open>The \<open>while True\<close> loop over what \<open>cap.read()\<close> returns.\<close>

fun frame_loop :: "video_env \<Rightarrow> int \<Rightarrow> loop_state \<Rightarrow> (bool \<times> frame option) list \<Rightarrow> py_error + loop_state" where
  "frame_loop env interval st [] = Inr st"
| "frame_loop env interval st ((ret, fr) # rest) =
     (if \<not> ret then Inr st
      else case fr of
        None \<Rightarrow> frame_loop env interval st rest
      | Some f \<Rightarrow>
          if length (shape f) \<noteq> 3 then frame_loop env interval st rest
          else
            (case process_frame env interval st f of
               Inl e \<Rightarrow> Inl e
             | Inr st' \<Rightarrow> frame_loop env interval st' rest))"

record run_result =
  summary :: "(string \<times> real) list"
  frames_analyzed :: nat
  duration_sec :: real
  public_url :: "string option"

text \<open>What a run leaves behind: the frames written to the output video, in order, and
  the local files removed.\<close>

record effects =
  sink :: "frame list"
  removed :: "string list"

definition summarize :: "(string \<times> nat) list \<Rightarrow> (string \<times> real) list" where
  "summarize counts =
     (let s = sum_list (map snd counts); total = (if s = 0 then 1 else s)
      in map (\<lambda>(k, v). (k, round2 (real v / real total * 100))) counts)"

definition process_video :: "video_env \<Rightarrow> string \<Rightarrow> py_error + run_result \<times> effects" where
  "process_video env video_path =
     (if \<not> path_exists env video_path then Inl FileNotFoundError
      else if \<not> cap_opened env video_path then Inl VideoOpenError
      else
        let fps = source_fps (cap_fps env);
            output_path = new_output_path env video_path;
            interval = frame_interval fps
        in case frame_loop env interval init_state (cap_reads env) of
             Inl e \<Rightarrow> Inl e
           | Inr st \<Rightarrow>
               let elapsed = clock_end env - clock_start env;
                   output_with_audio = merge_audio env video_path output_path;
                   compressed_path = compress_video env output_with_audio output_with_audio;
                   gcs_path = ''processed_videos/'' @ basename compressed_path;
                   (url, rm) =
                     (case upload_to_gcs env compressed_path gcs_path of
                        Inl e \<Rightarrow> (None, [])
                      | Inr u \<Rightarrow>
                          (case os_remove env output_with_audio of
                             Some e \<Rightarrow> (None, [])
                           | None \<Rightarrow> (Some u, [output_with_audio])))
               in Inr (\<lparr> summary = summarize (emotion_counts st),
                          frames_analyzed = analyzed_frames st,
                          duration_sec = round2 elapsed,
                          public_url = url \<rparr>,
                       \<lparr> sink = written st, removed = rm \<rparr>))"

text \<open>The frames the loop body runs on: those read before the source ends, decoded and
  with a three-dimensional shape.\<close>

fun valid_frames :: "(bool \<times> frame option) list \<Rightarrow> frame list" where
  "valid_frames [] = []"
| "valid_frames ((ret, fr) # rest) =
     (if \<not> ret then []
      else case fr of
        None \<Rightarrow> valid_frames rest
      | Some f \<Rightarrow> if length (shape f) \<noteq> 3 then valid_frames rest else f # valid_frames rest)"

text \<open>The sampling interval in the words of the specification:
  \<open>max(1, round(rate \<times> 2))\<close>.\<close>

definition spec_interval :: "real \<Rightarrow> int" where
  "spec_interval rate = max 1 (py_round (rate * 2))"

section \<open>Concrete inputs\<close>

text \<open>A 100 by 100 image in which the detector reports three boxes and one malformed
  entry, and a network that scores every class equally.\<close>

definition wit_image :: image where
  "wit_image = \<lparr> img_rows = 100, img_cols = 100, img_data = 0 \<rparr>"

definition wit_analyzer :: analyzer_env where
  "wit_analyzer =
     \<lparr> pil_decode = (\<lambda>b. Inr wit_image),
       mtcnn = (\<lambda>i. Inr [DetDict (Some (- 5, 10, 40, 40)) (Some (9 / 10)),
                          DetDict (Some (0, 0, 20, 50)) (Some (99 / 100)),
                          DetDict (Some (1, 1, 50, 50)) (Some (1 / 2)),
                          NotADict]),
       predict = (\<lambda>i b. Inr [0, 0, 0, 0, 0, 0, 0]) \<rparr>"

text \<open>A source at 1 frame per second: four good frames, one read that decodes to
  nothing, then the end of the stream. Every collaborator succeeds.\<close>

definition wit_frame :: "nat \<Rightarrow> frame" where
  "wit_frame k = \<lparr> shape = [48, 64, 3], pixels = k, overlays = [] \<rparr>"

definition wit_video :: video_env where
  "wit_video =
     \<lparr> path_exists = (\<lambda>p. True),
       cap_opened = (\<lambda>p. True),
       cap_fps = 1,
       cap_reads = [(True, Some (wit_frame 1)), (True, None), (True, Some (wit_frame 2)),
                    (True, Some (wit_frame 3)), (True, Some (wit_frame 4)), (False, None)],
       imencode = (\<lambda>f. Some ''jpeg''),
       analyze = analyze_bytes wit_analyzer,
       new_output_path = (\<lambda>p. ''/tmp/processed_ab12cd34.mp4''),
       which_ffmpeg = Some ''/usr/bin/ffmpeg'',
       subprocess_run = (\<lambda>c. Inr 0),
       upload_to_gcs = (\<lambda>l d. Inr ''https://storage.example/signed''),
       os_remove = (\<lambda>p. None),
       clock_start = 10,
       clock_end = 25 / 2 \<rparr>"

text \<open>What the analyzer returns on \<open>wit_analyzer\<close>, a frame with it drawn, and the loop
  state after the four frames of \<open>wit_video\<close>.\<close>

definition wit_detection :: detection where
  "wit_detection =
     \<lparr> det_id = 1, bbox = Some [0, 10, 40, 40], box = None, emotion = ''angry'',
       confidence = 1 / 7,
       all_probs = [(''angry'', 1 / 7), (''disgust'', 1 / 7), (''fear'', 1 / 7),
                    (''happy'', 1 / 7), (''neutral'', 1 / 7), (''sad'', 1 / 7),
                    (''surprise'', 1 / 7)] \<rparr>"

definition wit_drawn :: "nat \<Rightarrow> frame" where
  "wit_drawn k =
     \<lparr> shape = [48, 64, 3], pixels = k,
       overlays = [\<lparr> ov_box = (0, 10, 40, 40), ov_color = (231, 76, 60),
                    ov_label = ''ANGRY'', ov_confidence = 1 / 7 \<rparr>] \<rparr>"

definition wit_final_state :: loop_state where
  "wit_final_state =
     \<lparr> processed_frames = 4, analyzed_frames = 2,
       emotion_counts = [(''angry'', 2), (''disgust'', 0), (''fear'', 0), (''happy'', 0),
                         (''neutral'', 0), (''sad'', 0), (''surprise'', 0)],
       last_detections = [wit_detection],
       written = [wit_frame 1, wit_drawn 2, wit_drawn 3, wit_drawn 4] \<rparr>"

text \<open>Variants of \<open>wit_video\<close> in which one collaborator behaves differently.\<close>

definition wit_no_faces :: video_env where
  "wit_no_faces = wit_video\<lparr> analyze := (\<lambda>b. Inr \<lparr> num_faces = 0, results = [] \<rparr>) \<rparr>"

definition wit_encoder_fails :: video_env where
  "wit_encoder_fails = wit_video\<lparr> imencode := (\<lambda>f. None) \<rparr>"

definition wit_slow_source :: video_env where
  "wit_slow_source = wit_video\<lparr> cap_fps := 1 / 4 \<rparr>"

definition wit_classifier_raises :: video_env where
  "wit_classifier_raises = wit_video\<lparr> analyze := (\<lambda>b. Inl (ExternalError ''predict'')) \<rparr>"


definition wit_ffmpeg_fails :: video_env where
  "wit_ffmpeg_fails = wit_video\<lparr> subprocess_run := (\<lambda>c. Inr 1) \<rparr>"



section \<open>Properties of the analyzer\<close>

lemma collect_bboxes_Cons:
  "collect_bboxes (d # dets) =
     (if passes d then clamp_origin (the (det_box d)) # collect_bboxes dets else collect_bboxes dets)"
proof (cases d)
  case NotADict
  then show ?thesis by (simp add: passes_def)
next
  case (DetDict b c)
  show ?thesis
  proof (cases b)
    case None
    with DetDict show ?thesis by (simp add: passes_def)
  next
    case (Some q)
    obtain x y w h where q: "q = (x, y, w, h)" by (cases q) auto
    show ?thesis
      unfolding DetDict Some q
      by (cases c) (auto simp: passes_def clamp_origin_def Let_def)
  qed
qed

lemma noise_not_passes: "is_noise d \<Longrightarrow> \<not> passes d"
  by (auto simp: is_noise_def passes_def split: raw_detection.splits option.splits)

lemma collect_bboxes_filter:
  "collect_bboxes dets = map (\<lambda>d. clamp_origin (the (det_box d))) (filter passes dets)"
proof (induction dets)
  case Nil
  show ?case by simp
next
  case (Cons d dets)
  then show ?case by (simp add: collect_bboxes_Cons del: collect_bboxes.simps)
qed

lemma collect_bboxes_noise:
  "is_noise d \<Longrightarrow> collect_bboxes (pre @ d # post) = collect_bboxes (pre @ post)"
  by (simp add: collect_bboxes_filter noise_not_passes)

lemma passes_cases:
  assumes "passes d"
  shows "\<exists>x y w h c. d = DetDict (Some (x, y, w, h)) c \<and> 30 \<le> w \<and> 30 \<le> h \<and>
           (\<forall>p. c = Some p \<longrightarrow> 85 / 100 \<le> p)"
  using assms
  by (cases d) (auto simp: passes_def split: option.splits)

lemma argmax_less: "xs \<noteq> [] \<Longrightarrow> argmax xs < length xs"
  by (induction xs rule: argmax.induct) (auto simp: Let_def)

lemma argmax_max: "y \<in> set xs \<Longrightarrow> y \<le> xs ! argmax xs"
proof (induction xs rule: argmax.induct)
  case 1
  then show ?case by simp
next
  case (2 x)
  then show ?case by simp
next
  case (3 x v va)
  then show ?case by (fastforce simp: Let_def)
qed

lemma argmax_first: "j < argmax xs \<Longrightarrow> xs ! j < xs ! argmax xs"
proof (induction xs arbitrary: j rule: argmax.induct)
  case 1
  then show ?case by simp
next
  case (2 x)
  then show ?case by simp
next
  case (3 x v va)
  show ?case
  proof (cases j)
    case 0
    with 3 show ?thesis by (auto simp: Let_def split: if_splits)
  next
    case (Suc k)
    with 3 show ?thesis by (auto simp: Let_def split: if_splits)
  qed
qed

lemma member_le_sum_list_real:
  fixes xs :: "real list"
  shows "x \<in> set xs \<Longrightarrow> (\<And>y. y \<in> set xs \<Longrightarrow> 0 \<le> y) \<Longrightarrow> x \<le> sum_list xs"
proof (induction xs)
  case Nil
  then show ?case by simp
next
  case (Cons a xs)
  have nn: "0 \<le> sum_list xs" using Cons.prems(2) by (simp add: sum_list_nonneg)
  show ?case
  proof (cases "x = a")
    case True
    with nn show ?thesis by simp
  next
    case False
    with Cons have "x \<le> sum_list xs" by simp
    moreover have "0 \<le> a" using Cons.prems(2) by simp
    ultimately show ?thesis by simp
  qed
qed

lemma softmax_range: "p \<in> set (softmax preds) \<Longrightarrow> 0 \<le> p \<and> p \<le> 1"
proof -
  assume "p \<in> set (softmax preds)"
  then obtain v where v: "v \<in> set preds" and p: "p = exp v / sum_list (map exp preds)"
    by (auto simp: softmax_def)
  have le: "exp v \<le> sum_list (map exp preds)"
    by (rule member_le_sum_list_real) (use v in auto)
  have pos: "0 < sum_list (map exp preds)"
    using le exp_gt_zero [of v] by linarith
  show ?thesis using le pos by (simp add: p)
qed

lemma map_of_indexed:
  assumes "distinct ks" "i < length ks"
  shows "map_of (map (\<lambda>j. (ks ! j, f j)) [0..<length ks]) (ks ! i) = Some (f i)"
proof -
  have "map (\<lambda>j. (ks ! j, f j)) [0..<length ks] = zip ks (map f [0..<length ks])"
    by (rule nth_equalityI) auto
  then show ?thesis
    using assms map_of_zip_nth [of ks "map f [0..<length ks]" i] by simp
qed

lemma CLASS_NAMES_distinct: "distinct CLASS_NAMES"
  by (simp add: CLASS_NAMES_def)

lemma CLASS_NAMES_length: "length CLASS_NAMES = 7"
  by (simp add: CLASS_NAMES_def)


lemma classify_face_Some:
  assumes "classify_face env img i b = Inr (Some d)"
  shows "\<exists>preds. predict env img b = Inr preds \<and> 7 \<le> length (softmax preds) \<and>
           argmax (softmax preds) < 7 \<and>
           emotion d = CLASS_NAMES ! argmax (softmax preds) \<and>
           confidence d = softmax preds ! argmax (softmax preds) \<and>
           all_probs d = map (\<lambda>j. (CLASS_NAMES ! j, softmax preds ! j)) [0..<length CLASS_NAMES] \<and>
           bbox d = (case b of (x, y, w, h) \<Rightarrow> Some [x, y, w, h])"
  using assms
  by (auto simp: classify_face_def Let_def CLASS_NAMES_length split: if_splits sum.splits)

lemma classify_faces_results:
  "classify_faces env img i bs = Inr rs \<Longrightarrow> d \<in> set rs \<Longrightarrow>
     \<exists>j b. b \<in> set bs \<and> classify_face env img j b = Inr (Some d)"
proof (induction bs arbitrary: i rs)
  case Nil
  then show ?case by simp
next
  case (Cons b bs)
  from Cons.prems(1) obtain r rs' where
    r: "classify_face env img i b = Inr r" and
    rs': "classify_faces env img (Suc i) bs = Inr rs'" and
    rs: "rs = (case r of None \<Rightarrow> rs' | Some d \<Rightarrow> d # rs')"
    by (auto split: sum.splits)
  show ?case
  proof (cases "d \<in> set rs'")
    case True
    from Cons.IH [OF rs' True] obtain j b' where
      "b' \<in> set bs" "classify_face env img j b' = Inr (Some d)" by blast
    then have "b' \<in> set (b # bs) \<and> classify_face env img j b' = Inr (Some d)" by simp
    then show ?thesis by blast
  next
    case False
    with Cons.prems(2) rs have "r = Some d" by (cases r) auto
    with r have "b \<in> set (b # bs) \<and> classify_face env img i b = Inr (Some d)" by simp
    then show ?thesis by blast
  qed
qed

lemma analyze_bytes_Inr:
  assumes "analyze_bytes env file_bytes = Inr r"
  shows "num_faces r = length (results r) \<and>
         (\<exists>img. pil_decode env file_bytes = Inr img \<and>
            (\<forall>d \<in> set (results r). \<exists>j b. b \<in> set (detect_faces env img) \<and>
                classify_face env img j b = Inr (Some d)))"
proof -
  from assms obtain img where img: "pil_decode env file_bytes = Inr img"
    by (auto simp: analyze_bytes_def read_image_to_rgb_def split: sum.splits)
  show ?thesis
  proof (cases "detect_faces env img = []")
    case True
    with assms img have "r = \<lparr> num_faces = 0, results = [] \<rparr>"
      by (simp add: analyze_bytes_def read_image_to_rgb_def)
    with img show ?thesis by simp
  next
    case False
    with assms img obtain rs where
      rs: "classify_faces env img 0 (detect_faces env img) = Inr rs" and
      r: "r = \<lparr> num_faces = length rs, results = rs \<rparr>"
      by (auto simp: analyze_bytes_def read_image_to_rgb_def Let_def split: sum.splits)
    have "\<forall>d \<in> set rs. \<exists>j b. b \<in> set (detect_faces env img) \<and>
            classify_face env img j b = Inr (Some d)"
      using classify_faces_results [OF rs] by blast
    with r img show ?thesis by simp
  qed
qed

lemma all_probs_facts:
  assumes "7 \<le> length probs" "idx < 7" "idx = argmax probs"
    "ap = map (\<lambda>j. (CLASS_NAMES ! j, probs ! j)) [0..<length CLASS_NAMES]"
  shows "map fst ap = CLASS_NAMES" "map snd ap = take 7 probs"
    "map_of ap (CLASS_NAMES ! idx) = Some (probs ! idx)"
    "\<forall>p \<in> set (map snd ap). p \<le> probs ! idx"
proof -
  show "map fst ap = CLASS_NAMES"
    unfolding assms(4) by (rule nth_equalityI) auto
  show snd: "map snd ap = take 7 probs"
    unfolding assms(4) using assms(1) by (intro nth_equalityI) (auto simp: CLASS_NAMES_length)
  show "map_of ap (CLASS_NAMES ! idx) = Some (probs ! idx)"
    unfolding assms(4) using assms(2)
    by (intro map_of_indexed) (auto simp: CLASS_NAMES_distinct CLASS_NAMES_length)
  show "\<forall>p \<in> set (map snd ap). p \<le> probs ! idx"
    unfolding snd assms(3) by (auto dest: in_set_takeD intro: argmax_max)
qed


lemma detect_faces_trace:
  assumes "b \<in> set (detect_faces env img)"
  shows "\<exists>dets d x y w h. mtcnn env img = Inr dets \<and> d \<in> set dets \<and> \<not> is_noise d \<and>
           det_box d = Some (x, y, w, h) \<and> 30 \<le> w \<and> 30 \<le> h \<and>
           (\<forall>p. det_confidence d = Some p \<longrightarrow> 85 / 100 \<le> p) \<and>
           b = (max 0 x, max 0 y, w, h)"
proof -
  from assms obtain dets where dets: "mtcnn env img = Inr dets" and b: "b \<in> set (collect_bboxes dets)"
    by (cases "mtcnn env img") (auto simp: detect_faces_def)
  from b obtain d where d: "d \<in> set dets" "passes d" and bd: "b = clamp_origin (the (det_box d))"
    by (auto simp: collect_bboxes_filter)
  from passes_cases [OF d(2)] obtain x y w h c where
    dd: "d = DetDict (Some (x, y, w, h)) c" and wh: "30 \<le> w" "30 \<le> h" and
    c: "\<forall>p. c = Some p \<longrightarrow> 85 / 100 \<le> p"
    by blast
  have nn: "\<not> is_noise d" using d(2) noise_not_passes by blast
  have "mtcnn env img = Inr dets \<and> d \<in> set dets \<and> \<not> is_noise d \<and>
           det_box d = Some (x, y, w, h) \<and> 30 \<le> w \<and> 30 \<le> h \<and>
           (\<forall>p. det_confidence d = Some p \<longrightarrow> 85 / 100 \<le> p) \<and>
           b = (max 0 x, max 0 y, w, h)"
    using dets d(1) nn wh c by (simp add: dd bd clamp_origin_def)
  then show ?thesis by blast
qed

text \<open>
  Claim C4. A face box whose detector confidence is below 0.85, or whose width or height
  is below 30 pixels, is never surfaced: removing such a box from the detector's output
  does not change what \<open>detect_faces\<close> returns, and every result of \<open>analyze_bytes\<close> carries
  the box of a raw detection that is not noise (confidence absent or at least 0.85, width
  and height at least 30), with its origin clamped to be non-negative.
\<close>

theorem noise_never_surfaced:
  "(is_noise d \<and> mtcnn env img = Inr (pre @ d # post) \<longrightarrow>
      detect_faces env img = collect_bboxes (pre @ post)) \<and>
   (analyze_bytes env file_bytes = Inr r \<longrightarrow>
      (\<forall>res \<in> set (results r).
         \<exists>im dets raw x y w h.
           pil_decode env file_bytes = Inr im \<and> mtcnn env im = Inr dets \<and> raw \<in> set dets \<and>
           \<not> is_noise raw \<and> det_box raw = Some (x, y, w, h) \<and> 30 \<le> w \<and> 30 \<le> h \<and>
           (\<forall>p. det_confidence raw = Some p \<longrightarrow> 85 / 100 \<le> p) \<and>
           bbox res = Some [max 0 x, max 0 y, w, h]))"
proof (intro conjI impI ballI)
  assume "is_noise d \<and> mtcnn env img = Inr (pre @ d # post)"
  then show "detect_faces env img = collect_bboxes (pre @ post)"
    by (simp add: detect_faces_def collect_bboxes_noise)
next
  fix res
  assume a: "analyze_bytes env file_bytes = Inr r" and res: "res \<in> set (results r)"
  from analyze_bytes_Inr [OF a] res obtain im j b where
    im: "pil_decode env file_bytes = Inr im" and
    b: "b \<in> set (detect_faces env im)" and
    cf: "classify_face env im j b = Inr (Some res)"
    by blast
  from detect_faces_trace [OF b] obtain dets raw x y w h where
    t: "mtcnn env im = Inr dets" "raw \<in> set dets" "\<not> is_noise raw"
       "det_box raw = Some (x, y, w, h)" "30 \<le> w" "30 \<le> h"
       "\<forall>p. det_confidence raw = Some p \<longrightarrow> 85 / 100 \<le> p"
       "b = (max 0 x, max 0 y, w, h)"
    by blast
  from classify_face_Some [OF cf] t(8) have "bbox res = Some [max 0 x, max 0 y, w, h]"
    by auto
  with im t show "\<exists>im dets raw x y w h.
           pil_decode env file_bytes = Inr im \<and> mtcnn env im = Inr dets \<and> raw \<in> set dets \<and>
           \<not> is_noise raw \<and> det_box raw = Some (x, y, w, h) \<and> 30 \<le> w \<and> 30 \<le> h \<and>
           (\<forall>p. det_confidence raw = Some p \<longrightarrow> 85 / 100 \<le> p) \<and>
           bbox res = Some [max 0 x, max 0 y, w, h]"
    by blast
qed

lemma wit_detect: "detect_faces wit_analyzer wit_image = [(0, 10, 40, 40)]"
  by (simp add: detect_faces_def wit_analyzer_def Let_def)

lemma wit_softmax: "softmax [0, 0, 0, 0, 0, 0, 0] = [1/7, 1/7, 1/7, 1/7, 1/7, 1/7, 1/7]"
  by (simp add: softmax_def)

lemma wit_roi: "roi_size wit_image (0, 10, 40, 40) = 4800"
  by (simp add: roi_size_def slice_len_def wit_image_def Let_def)

lemma wit_upt7: "[0..<7] = [0, 1, 2, 3, 4, 5, 6]"
  by (simp add: upt_rec)

lemma wit_classify:
  "classify_face wit_analyzer wit_image 0 (0, 10, 40, 40) =
     Inr (Some \<lparr> det_id = 1, bbox = Some [0, 10, 40, 40], box = None, emotion = ''angry'',
                 confidence = 1 / 7,
                 all_probs = [(''angry'', 1 / 7), (''disgust'', 1 / 7), (''fear'', 1 / 7),
                              (''happy'', 1 / 7), (''neutral'', 1 / 7), (''sad'', 1 / 7),
                              (''surprise'', 1 / 7)] \<rparr>)"
  unfolding classify_face_def wit_roi
  by (simp add: wit_analyzer_def wit_softmax CLASS_NAMES_def wit_upt7)

lemma wit_analyze:
  "analyze_bytes wit_analyzer ''jpeg'' =
     Inr \<lparr> num_faces = 1, results =
       [\<lparr> det_id = 1, bbox = Some [0, 10, 40, 40], box = None, emotion = ''angry'',
                 confidence = 1 / 7,
                 all_probs = [(''angry'', 1 / 7), (''disgust'', 1 / 7), (''fear'', 1 / 7),
                              (''happy'', 1 / 7), (''neutral'', 1 / 7), (''sad'', 1 / 7),
                              (''surprise'', 1 / 7)] \<rparr>] \<rparr>"
proof -
  have d: "pil_decode wit_analyzer ''jpeg'' = Inr wit_image" by (simp add: wit_analyzer_def)
  show ?thesis
    unfolding analyze_bytes_def read_image_to_rgb_def d
    by (simp add: wit_detect wit_classify)
qed


text \<open>The statement above at the concrete detector output of \<open>wit_analyzer\<close>.\<close>

theorem noise_never_surfaced_witness:
  "is_noise (DetDict (Some (0, 0, 20, 50)) (Some (99 / 100))) \<and>
   mtcnn wit_analyzer wit_image =
     Inr ([DetDict (Some (- 5, 10, 40, 40)) (Some (9 / 10))] @
          DetDict (Some (0, 0, 20, 50)) (Some (99 / 100)) #
          [DetDict (Some (1, 1, 50, 50)) (Some (1 / 2)), NotADict]) \<and>
   detect_faces wit_analyzer wit_image =
     collect_bboxes ([DetDict (Some (- 5, 10, 40, 40)) (Some (9 / 10))] @
          [DetDict (Some (1, 1, 50, 50)) (Some (1 / 2)), NotADict]) \<and>
   (\<exists>r res. analyze_bytes wit_analyzer ''jpeg'' = Inr r \<and> results r = [res] \<and>
      (\<exists>x y w h. 30 \<le> w \<and> 30 \<le> h \<and> bbox res = Some [max 0 x, max 0 y, w, h]))"
proof -
  let ?d = "DetDict (Some (0, 0, 20, 50)) (Some (99 / 100))"
  let ?pre = "[DetDict (Some (- 5, 10, 40, 40)) (Some (9 / 10))]"
  let ?post = "[DetDict (Some (1, 1, 50, 50)) (Some (1 / 2)), NotADict]"
  let ?res = "\<lparr> det_id = 1, bbox = Some [0, 10, 40, 40], box = None, emotion = ''angry'',
                 confidence = 1 / 7,
                 all_probs = [(''angry'', 1 / 7), (''disgust'', 1 / 7), (''fear'', 1 / 7),
                              (''happy'', 1 / 7), (''neutral'', 1 / 7), (''sad'', 1 / 7),
                              (''surprise'', 1 / 7)] \<rparr>"
  let ?r = "\<lparr> num_faces = 1, results = [?res] \<rparr>"
  have n: "is_noise ?d" by (simp add: is_noise_def)
  have m: "mtcnn wit_analyzer wit_image = Inr (?pre @ ?d # ?post)"
    by (simp add: wit_analyzer_def)
  have a: "analyze_bytes wit_analyzer ''jpeg'' = Inr ?r" by (rule wit_analyze)
  note inst = noise_never_surfaced [of ?d wit_analyzer wit_image ?pre ?post "''jpeg''" ?r]
  from inst n m have 1: "detect_faces wit_analyzer wit_image = collect_bboxes (?pre @ ?post)"
    by blast
  from inst a have "\<forall>res \<in> set (results ?r). \<exists>im dets raw x y w h.
           pil_decode wit_analyzer ''jpeg'' = Inr im \<and> mtcnn wit_analyzer im = Inr dets \<and>
           raw \<in> set dets \<and> \<not> is_noise raw \<and> det_box raw = Some (x, y, w, h) \<and>
           30 \<le> w \<and> 30 \<le> h \<and> (\<forall>p. det_confidence raw = Some p \<longrightarrow> 85 / 100 \<le> p) \<and>
           bbox res = Some [max 0 x, max 0 y, w, h]"
    by blast
  then have 2: "\<exists>x y w h. 30 \<le> w \<and> 30 \<le> h \<and> bbox ?res = Some [max 0 x, max 0 y, w, h]"
    by (simp only: analysis.select_convs list.set ball_simps) blast
  from a 2 have 3: "\<exists>r res. analyze_bytes wit_analyzer ''jpeg'' = Inr r \<and> results r = [res] \<and>
      (\<exists>x y w h. 30 \<le> w \<and> 30 \<le> h \<and> bbox res = Some [max 0 x, max 0 y, w, h])"
    by (intro exI [of _ ?r] exI [of _ ?res]) simp
  from n m 1 3 show ?thesis by blast
qed

text \<open>
  Claim C10. For every successful call of \<open>analyze_bytes\<close>: \<open>num_faces\<close> is the length of
  \<open>results\<close>; the keys of each \<open>all_probs\<close> are exactly the seven class labels, its values
  the first seven softmax probabilities; \<open>emotion\<close> is the class at the arg-max of the
  softmax vector and \<open>confidence\<close> is the probability at that index, hence the largest
  value in \<open>all_probs\<close> and a number between 0 and 1.
\<close>

theorem analyze_bytes_record_invariants:
  assumes "analyze_bytes env file_bytes = Inr r"
  shows "num_faces r = length (results r) \<and>
    (\<forall>d \<in> set (results r).
        map fst (all_probs d) = CLASS_NAMES \<and>
        (\<exists>im b preds. pil_decode env file_bytes = Inr im \<and> predict env im b = Inr preds \<and>
            map snd (all_probs d) = take 7 (softmax preds) \<and>
            argmax (softmax preds) < 7 \<and>
            emotion d = CLASS_NAMES ! argmax (softmax preds) \<and>
            confidence d = softmax preds ! argmax (softmax preds) \<and>
            (\<forall>p \<in> set (softmax preds). p \<le> confidence d)) \<and>
        map_of (all_probs d) (emotion d) = Some (confidence d) \<and>
        (\<forall>p \<in> set (map snd (all_probs d)). p \<le> confidence d) \<and>
        0 \<le> confidence d \<and> confidence d \<le> 1)"
proof (rule conjI)
  show "num_faces r = length (results r)"
    using analyze_bytes_Inr [OF assms] by blast
next
  show "\<forall>d \<in> set (results r).
        map fst (all_probs d) = CLASS_NAMES \<and>
        (\<exists>im b preds. pil_decode env file_bytes = Inr im \<and> predict env im b = Inr preds \<and>
            map snd (all_probs d) = take 7 (softmax preds) \<and>
            argmax (softmax preds) < 7 \<and>
            emotion d = CLASS_NAMES ! argmax (softmax preds) \<and>
            confidence d = softmax preds ! argmax (softmax preds) \<and>
            (\<forall>p \<in> set (softmax preds). p \<le> confidence d)) \<and>
        map_of (all_probs d) (emotion d) = Some (confidence d) \<and>
        (\<forall>p \<in> set (map snd (all_probs d)). p \<le> confidence d) \<and>
        0 \<le> confidence d \<and> confidence d \<le> 1"
  proof (rule ballI)
    fix d
    assume d: "d \<in> set (results r)"
    from analyze_bytes_Inr [OF assms] d obtain im j b where
      im: "pil_decode env file_bytes = Inr im" and
      cf: "classify_face env im j b = Inr (Some d)"
      by blast
    from classify_face_Some [OF cf] obtain preds where
      p: "predict env im b = Inr preds" and
      len: "7 \<le> length (softmax preds)" and
      idx: "argmax (softmax preds) < 7" and
      em: "emotion d = CLASS_NAMES ! argmax (softmax preds)" and
      co: "confidence d = softmax preds ! argmax (softmax preds)" and
      ap: "all_probs d = map (\<lambda>j. (CLASS_NAMES ! j, softmax preds ! j)) [0..<length CLASS_NAMES]"
      by blast
    note f = all_probs_facts [OF len idx refl ap]
    have mx: "\<forall>p \<in> set (softmax preds). p \<le> confidence d"
      unfolding co by (auto intro: argmax_max)
    have mem: "confidence d \<in> set (softmax preds)"
      unfolding co using idx len by (intro nth_mem) simp
    have g1: "map fst (all_probs d) = CLASS_NAMES" by (rule f(1))
    have g2: "\<exists>im b preds. pil_decode env file_bytes = Inr im \<and> predict env im b = Inr preds \<and>
            map snd (all_probs d) = take 7 (softmax preds) \<and>
            argmax (softmax preds) < 7 \<and>
            emotion d = CLASS_NAMES ! argmax (softmax preds) \<and>
            confidence d = softmax preds ! argmax (softmax preds) \<and>
            (\<forall>p \<in> set (softmax preds). p \<le> confidence d)"
      using im p f(2) idx em co mx by blast
    have g3: "map_of (all_probs d) (emotion d) = Some (confidence d)"
      using f(3) em co by simp
    have g4: "\<forall>p \<in> set (map snd (all_probs d)). p \<le> confidence d"
      using f(4) co by simp
    have g5: "0 \<le> confidence d" using softmax_range [OF mem] by simp
    have g6: "confidence d \<le> 1" using softmax_range [OF mem] by simp
    show "map fst (all_probs d) = CLASS_NAMES \<and>
        (\<exists>im b preds. pil_decode env file_bytes = Inr im \<and> predict env im b = Inr preds \<and>
            map snd (all_probs d) = take 7 (softmax preds) \<and>
            argmax (softmax preds) < 7 \<and>
            emotion d = CLASS_NAMES ! argmax (softmax preds) \<and>
            confidence d = softmax preds ! argmax (softmax preds) \<and>
            (\<forall>p \<in> set (softmax preds). p \<le> confidence d)) \<and>
        map_of (all_probs d) (emotion d) = Some (confidence d) \<and>
        (\<forall>p \<in> set (map snd (all_probs d)). p \<le> confidence d) \<and>
        0 \<le> confidence d \<and> confidence d \<le> 1"
      using g1 g2 g3 g4 g5 g6 by (intro conjI)
  qed
qed

text \<open>The statement above at the concrete detector output of \<open>wit_analyzer\<close>.\<close>

theorem analyze_bytes_record_invariants_witness:
  "\<exists>r d. analyze_bytes wit_analyzer ''jpeg'' = Inr r \<and> results r = [d] \<and> num_faces r = 1 \<and>
     map fst (all_probs d) = CLASS_NAMES \<and> emotion d = ''angry'' \<and>
     map_of (all_probs d) ''angry'' = Some (confidence d) \<and>
     0 \<le> confidence d \<and> confidence d \<le> 1"
proof -
  let ?res = "\<lparr> det_id = 1, bbox = Some [0, 10, 40, 40], box = None, emotion = ''angry'',
                 confidence = 1 / 7,
                 all_probs = [(''angry'', 1 / 7), (''disgust'', 1 / 7), (''fear'', 1 / 7),
                              (''happy'', 1 / 7), (''neutral'', 1 / 7), (''sad'', 1 / 7),
                              (''surprise'', 1 / 7)] \<rparr>"
  let ?r = "\<lparr> num_faces = 1, results = [?res] \<rparr>"
  have a: "analyze_bytes wit_analyzer ''jpeg'' = Inr ?r" by (rule wit_analyze)
  from analyze_bytes_record_invariants [OF a]
  have "num_faces ?r = 1 \<and> map fst (all_probs ?res) = CLASS_NAMES \<and>
        map_of (all_probs ?res) (emotion ?res) = Some (confidence ?res) \<and>
        0 \<le> confidence ?res \<and> confidence ?res \<le> 1"
    by simp
  with a show ?thesis
    by (intro exI [of _ ?r] exI [of _ ?res]) simp
qed

section \<open>Properties of the video pipeline\<close>

text \<open>
  Claim C9. Each post-processing stage falls back to its input on a soft failure.
  \<open>merge_audio\<close> returns the silent processed video unchanged when either input file is
  missing, or FFmpeg raises or exits non-zero. \<open>compress_video\<close>, called by the pipeline
  with the same path as input and output, returns that path unchanged when it is missing,
  or FFmpeg raises or exits non-zero; for any output name it returns its input when FFmpeg
  raises or exits non-zero. Both functions always return a path, so the pipeline continues.
\<close>

theorem post_processing_fallbacks:
  "((\<not> path_exists env original_path \<or> \<not> path_exists env processed_path \<or>
      (\<exists>e. subprocess_run env (merge_command env original_path processed_path
              (replace_str ''.mp4'' ''_with_audio.mp4'' processed_path)) = Inl e) \<or>
      (\<exists>rc. subprocess_run env (merge_command env original_path processed_path
              (replace_str ''.mp4'' ''_with_audio.mp4'' processed_path)) = Inr rc \<and> rc \<noteq> 0))
     \<longrightarrow> merge_audio env original_path processed_path = processed_path) \<and>
   ((\<not> path_exists env artifact \<or>
      (\<exists>e. subprocess_run env (compress_command env artifact
              (replace_str ''.mp4'' ''_compressed.mp4'' artifact)) = Inl e) \<or>
      (\<exists>rc. subprocess_run env (compress_command env artifact
              (replace_str ''.mp4'' ''_compressed.mp4'' artifact)) = Inr rc \<and> rc \<noteq> 0))
     \<longrightarrow> compress_video env artifact artifact = artifact) \<and>
   (path_exists env input_path \<and>
      ((\<exists>e. subprocess_run env (compress_command env input_path
              (replace_str ''.mp4'' ''_compressed.mp4'' output_path)) = Inl e) \<or>
       (\<exists>rc. subprocess_run env (compress_command env input_path
              (replace_str ''.mp4'' ''_compressed.mp4'' output_path)) = Inr rc \<and> rc \<noteq> 0))
     \<longrightarrow> compress_video env input_path output_path = input_path)"
  by (auto simp: merge_audio_def compress_video_def Let_def)


subsection \<open>Rounding and the summary\<close>



lemma round2_zero: "round2 0 = 0"
  by (simp add: round2_def py_round_def)









subsection \<open>The emotion counters\<close>

lemma incr_keys: "map fst (incr k counts) = map fst counts"
  by (induction counts) (auto simp: incr_def)

lemma count_detection_keys: "map fst (count_detection counts det) = map fst counts"
  by (simp add: count_detection_def incr_keys split: option.splits)


text \<open>The counters count detections: each detection with a usable box and a known
  label adds one to the sum.\<close>

lemma incr_total:
  "distinct (map fst counts) \<Longrightarrow>
   sum_list (map snd (incr k counts)) =
     sum_list (map snd counts) + (if k \<in> set (map fst counts) then 1 else 0)"
proof (induction counts)
  case Nil
  then show ?case by (simp add: incr_def)
next
  case (Cons c counts)
  obtain k' v where c: "c = (k', v)" by (cases c)
  from Cons.prems have d: "distinct (map fst counts)" and n: "k' \<notin> set (map fst counts)"
    by (simp_all add: c)
  have i: "incr k (c # counts) = (if k' = k then (k', v + 1) else (k', v)) # incr k counts"
    by (simp add: incr_def c)
  show ?case
    unfolding i using Cons.IH [OF d] n by (auto simp: c)
qed

lemma count_detection_total:
  "distinct (map fst counts) \<Longrightarrow>
   sum_list (map snd (count_detection counts det)) =
     sum_list (map snd counts) +
       (if usable_bbox det \<noteq> None \<and> emotion det \<in> set (map fst counts) then 1 else 0)"
  by (cases "usable_bbox det") (simp_all add: count_detection_def incr_total)

lemma count_all_total:
  "distinct (map fst counts) \<Longrightarrow>
   sum_list (map snd (count_all dets counts)) =
     sum_list (map snd counts) +
       length (filter (\<lambda>det. usable_bbox det \<noteq> None \<and> emotion det \<in> set (map fst counts)) dets)"
  unfolding count_all_def
proof (induction dets arbitrary: counts)
  case Nil
  show ?case by simp
next
  case (Cons det dets)
  have d: "distinct (map fst (count_detection counts det))"
    using Cons.prems by (simp add: count_detection_keys)
  show ?case
    using Cons.IH [OF d] count_detection_total [OF Cons.prems, of det]
    by (simp add: count_detection_keys)
qed

subsection \<open>The frame loop\<close>




lemma process_frame_total:
  "i \<noteq> 0 \<Longrightarrow> \<exists>st'. process_frame env i st f = Inr st'"
  by (auto simp: process_frame_def Let_def split: option.splits sum.splits)

lemma process_frame_zero: "process_frame env 0 st f = Inl ZeroDivisionError"
  by (simp add: process_frame_def Let_def)

lemma process_frame_counters:
  assumes "process_frame env i st f = Inr st'"
  shows "processed_frames st' = processed_frames st + 1"
    and "analyzed_frames st' =
           analyzed_frames st + (if sampled i (processed_frames st + 1) then 1 else 0)"
  using assms
  by (auto simp: process_frame_def Let_def split: if_splits option.splits sum.splits)

lemma frame_loop_total:
  "i \<noteq> 0 \<Longrightarrow> \<exists>st'. frame_loop env i st reads = Inr st'"
proof (induction reads arbitrary: st)
  case Nil
  then show ?case by simp
next
  case (Cons rd reads)
  obtain ret fr where rd: "rd = (ret, fr)" by (cases rd)
  show ?case
  proof (cases "ret \<and> fr \<noteq> None \<and> length (shape (the fr)) = 3")
    case False
    with Cons rd show ?thesis by (auto split: option.splits)
  next
    case True
    then obtain f where f: "fr = Some f" "length (shape f) = 3" "ret" by auto
    from process_frame_total [OF Cons.prems] obtain s1 where
      s1: "process_frame env i st f = Inr s1" by blast
    from Cons.IH [OF Cons.prems] obtain st' where "frame_loop env i s1 reads = Inr st'" by blast
    with s1 f rd show ?thesis by simp
  qed
qed

lemma upt_shift: "[Suc p ..< Suc (p + Suc n)] = Suc p # [Suc (Suc p) ..< Suc (Suc p + n)]"
  by (simp add: upt_conv_Cons)

lemma frame_loop_counters:
  "frame_loop env i st reads = Inr st' \<Longrightarrow>
     processed_frames st' = processed_frames st + length (valid_frames reads) \<and>
     analyzed_frames st' = analyzed_frames st +
       length (filter (sampled i)
         [Suc (processed_frames st) ..< Suc (processed_frames st + length (valid_frames reads))])"
proof (induction reads arbitrary: st)
  case Nil
  then show ?case by simp
next
  case (Cons rd reads)
  obtain ret fr where rd: "rd = (ret, fr)" by (cases rd)
  show ?case
  proof (cases "ret \<and> fr \<noteq> None \<and> length (shape (the fr)) = 3")
    case False
    with Cons rd show ?thesis by (auto split: option.splits if_splits)
  next
    case True
    then obtain f where f: "fr = Some f" "length (shape f) = 3" "ret" by auto
    with Cons.prems rd obtain s1 where
      s1: "process_frame env i st f = Inr s1" and l: "frame_loop env i s1 reads = Inr st'"
      by (auto split: sum.splits)
    have c1: "processed_frames s1 = Suc (processed_frames st)"
      using process_frame_counters(1) [OF s1] by simp
    have c2: "analyzed_frames s1 =
           analyzed_frames st + (if sampled i (Suc (processed_frames st)) then 1 else 0)"
      using process_frame_counters(2) [OF s1] by simp
    have v: "length (valid_frames (rd # reads)) = Suc (length (valid_frames reads))"
      using f rd by simp
    from Cons.IH [OF l] have
      p: "processed_frames st' = Suc (processed_frames st) + length (valid_frames reads)" and
      a: "analyzed_frames st' = analyzed_frames s1 +
           length (filter (sampled i)
             [Suc (Suc (processed_frames st)) ..<
              Suc (Suc (processed_frames st) + length (valid_frames reads))])"
      unfolding c1 by simp_all
    show ?thesis
      unfolding v upt_shift using p a c2 by simp
  qed
qed

subsection \<open>The run on the concrete source\<close>





lemma wit_draw_none: "draw_all [] f = f"
  by (simp add: draw_all_def)




subsection \<open>What the loop writes\<close>

text \<open>Drawing changes neither the pixel data nor the shape of a frame.\<close>

lemma draw_detection_same: "pixels (draw_detection fr det) = pixels fr \<and> shape (draw_detection fr det) = shape fr"
  by (simp add: draw_detection_def split: option.splits)

lemma draw_all_same: "pixels (draw_all dets fr) = pixels fr \<and> shape (draw_all dets fr) = shape fr"
  unfolding draw_all_def
  by (induction dets arbitrary: fr) (simp_all add: draw_detection_same)

text \<open>While no detection is stored and no analysis returns one, frames are written as they
  were read, except a sampled frame whose JPEG encoding fails, which is not written.\<close>

lemma process_frame_quiet:
  assumes "process_frame env i st f = Inr st'" "last_detections st = []"
    "\<forall>buf a. imencode env f = Some buf \<longrightarrow> analyze env buf = Inr a \<longrightarrow> results a = []"
  shows "last_detections st' = [] \<and> emotion_counts st' = emotion_counts st \<and>
         written st' = written st @
           (if sampled i (Suc (processed_frames st)) \<and> imencode env f = None then [] else [f])"
  using assms
  by (auto simp: process_frame_def Let_def draw_all_def split: if_splits option.splits sum.splits)

lemma upt_head: "[Suc p ..< Suc (Suc (p + n))] = Suc p # [Suc (Suc p) ..< Suc (Suc (p + n))]"
  by (simp add: upt_conv_Cons)

lemma frame_loop_quiet:
  "frame_loop env i st reads = Inr st' \<Longrightarrow> last_detections st = [] \<Longrightarrow>
   (\<forall>f \<in> set (valid_frames reads). \<forall>buf a.
       imencode env f = Some buf \<longrightarrow> analyze env buf = Inr a \<longrightarrow> results a = []) \<Longrightarrow>
   last_detections st' = [] \<and> emotion_counts st' = emotion_counts st \<and>
   written st' = written st @
     map snd (filter (\<lambda>kf. \<not> (sampled i (fst kf) \<and> imencode env (snd kf) = None))
       (zip [Suc (processed_frames st) ..< Suc (processed_frames st + length (valid_frames reads))]
            (valid_frames reads)))"
proof (induction reads arbitrary: st)
  case Nil
  then show ?case by simp
next
  case (Cons rd reads)
  obtain ret fr where rd: "rd = (ret, fr)" by (cases rd)
  show ?case
  proof (cases "ret \<and> fr \<noteq> None \<and> length (shape (the fr)) = 3")
    case False
    with Cons rd show ?thesis by (auto split: option.splits if_splits)
  next
    case True
    then obtain f where f: "fr = Some f" "length (shape f) = 3" "ret" by auto
    with Cons.prems(1) rd obtain s1 where
      s1: "process_frame env i st f = Inr s1" and l: "frame_loop env i s1 reads = Inr st'"
      by (auto split: sum.splits)
    have v: "valid_frames (rd # reads) = f # valid_frames reads" using f rd by simp
    have c1: "processed_frames s1 = Suc (processed_frames st)"
      using process_frame_counters(1) [OF s1] by simp
    have q: "\<forall>buf a. imencode env f = Some buf \<longrightarrow> analyze env buf = Inr a \<longrightarrow> results a = []"
      using Cons.prems(3) v by simp
    have q': "\<forall>f \<in> set (valid_frames reads). \<forall>buf a.
       imencode env f = Some buf \<longrightarrow> analyze env buf = Inr a \<longrightarrow> results a = []"
      using Cons.prems(3) v by simp
    note a = process_frame_quiet [OF s1 Cons.prems(2) q]
    from a have e1: "last_detections s1 = []" by simp
    note ih = Cons.IH [OF l e1 q']
    show ?thesis
      unfolding v using ih a
      by (simp add: c1 upt_head del: upt_Suc)
  qed
qed

text \<open>When JPEG encoding never fails, every valid frame is written once, in the order
  read.\<close>

lemma frame_loop_writes_all:
  "frame_loop env i st reads = Inr st' \<Longrightarrow>
   (\<forall>f \<in> set (valid_frames reads). imencode env f \<noteq> None) \<Longrightarrow>
   map pixels (written st') = map pixels (written st) @ map pixels (valid_frames reads)"
proof (induction reads arbitrary: st)
  case Nil
  then show ?case by simp
next
  case (Cons rd reads)
  obtain ret fr where rd: "rd = (ret, fr)" by (cases rd)
  show ?case
  proof (cases "ret \<and> fr \<noteq> None \<and> length (shape (the fr)) = 3")
    case False
    with Cons rd show ?thesis by (auto split: option.splits if_splits)
  next
    case True
    then obtain f where f: "fr = Some f" "length (shape f) = 3" "ret" by auto
    with Cons.prems(1) rd obtain s1 where
      s1: "process_frame env i st f = Inr s1" and l: "frame_loop env i s1 reads = Inr st'"
      by (auto split: sum.splits)
    have v: "valid_frames (rd # reads) = f # valid_frames reads" using f rd by simp
    have en: "imencode env f \<noteq> None" using Cons.prems(2) v by simp
    have w: "map pixels (written s1) = map pixels (written st) @ [pixels f]"
      using s1 en
      by (auto simp: process_frame_def Let_def draw_all_same
               split: if_splits option.splits sum.splits)
    have "\<forall>f \<in> set (valid_frames reads). imencode env f \<noteq> None"
      using Cons.prems(2) v by simp
    from Cons.IH [OF l this] show ?thesis unfolding v w by simp
  qed
qed

subsection \<open>The whole run\<close>

text \<open>A missing or unreadable source aborts the run; an exception of the frame loop
  propagates; otherwise the run returns the record below.\<close>

lemma process_video_missing:
  "\<not> path_exists env video_path \<Longrightarrow> process_video env video_path = Inl FileNotFoundError"
  by (simp add: process_video_def)

lemma process_video_unopened:
  "path_exists env video_path \<Longrightarrow> \<not> cap_opened env video_path \<Longrightarrow>
     process_video env video_path = Inl VideoOpenError"
  by (simp add: process_video_def)

lemma process_video_loop_error:
  "path_exists env video_path \<Longrightarrow> cap_opened env video_path \<Longrightarrow>
   frame_loop env (frame_interval (source_fps (cap_fps env))) init_state (cap_reads env) = Inl e \<Longrightarrow>
   process_video env video_path = Inl e"
  by (simp add: process_video_def Let_def)

lemma process_video_Inr:
  assumes "path_exists env video_path" "cap_opened env video_path"
    "frame_loop env (frame_interval (source_fps (cap_fps env))) init_state (cap_reads env) = Inr st"
  shows "process_video env video_path =
     Inr (\<lparr> summary = summarize (emotion_counts st),
            frames_analyzed = analyzed_frames st,
            duration_sec = round2 (clock_end env - clock_start env),
            public_url =
              (case upload_to_gcs env
                      (compress_video env (merge_audio env video_path (new_output_path env video_path))
                                          (merge_audio env video_path (new_output_path env video_path)))
                      (''processed_videos/'' @ basename
                        (compress_video env (merge_audio env video_path (new_output_path env video_path))
                                          (merge_audio env video_path (new_output_path env video_path)))) of
                 Inl e \<Rightarrow> None
               | Inr u \<Rightarrow> (case os_remove env (merge_audio env video_path (new_output_path env video_path)) of
                             Some e \<Rightarrow> None | None \<Rightarrow> Some u)) \<rparr>,
          \<lparr> sink = written st,
            removed =
              (case upload_to_gcs env
                      (compress_video env (merge_audio env video_path (new_output_path env video_path))
                                          (merge_audio env video_path (new_output_path env video_path)))
                      (''processed_videos/'' @ basename
                        (compress_video env (merge_audio env video_path (new_output_path env video_path))
                                          (merge_audio env video_path (new_output_path env video_path)))) of
                 Inl e \<Rightarrow> []
               | Inr u \<Rightarrow> (case os_remove env (merge_audio env video_path (new_output_path env video_path)) of
                             Some e \<Rightarrow> [] | None \<Rightarrow> [merge_audio env video_path (new_output_path env video_path)])) \<rparr>)"
  using assms
  by (simp add: process_video_def Let_def split: sum.splits option.splits)


text \<open>
  Claim C1 as stated fails: at 29.97 frames per second the source computes
  \<open>int(59.94) = 59\<close>, whereas \<open>max(1, round(59.94))\<close> is 60.
\<close>

theorem interval_rounding_counterexample:
  "(1::real) \<le> 2997 / 100 \<and> frame_interval (source_fps (2997 / 100)) = 59 \<and>
   spec_interval (2997 / 100) = 60"
  by (simp add: frame_interval_def source_fps_def py_int_def spec_interval_def py_round_def Let_def)

subsection \<open>Sampling\<close>

lemma frame_interval_floor:
  "1 \<le> rate \<Longrightarrow> frame_interval (source_fps rate) = \<lfloor>rate * 2\<rfloor> \<and> 2 \<le> frame_interval (source_fps rate)"
  by (simp add: frame_interval_def source_fps_def py_int_def le_floor_iff)

lemma process_frame_skip:
  "i \<noteq> 0 \<Longrightarrow> \<not> sampled i (processed_frames st + 1) \<Longrightarrow>
   process_frame env i st f =
     Inr (st\<lparr> processed_frames := processed_frames st + 1,
              written := written st @ [draw_all (last_detections st) f] \<rparr>)"
  by (simp add: process_frame_def Let_def)

lemma process_frame_sampled:
  assumes "i \<noteq> 0" "sampled i (processed_frames st + 1)"
  shows "\<exists>st'. process_frame env i st f = Inr st' \<and>
           processed_frames st' = processed_frames st + 1 \<and>
           analyzed_frames st' = analyzed_frames st + 1 \<and>
           (\<forall>buf a. imencode env f = Some buf \<and> analyze env buf = Inr a \<and> results a \<noteq> [] \<longrightarrow>
              last_detections st' = results a \<and>
              written st' = written st @ [draw_all (results a) f])"
  using assms
  by (auto simp: process_frame_def Let_def split: option.splits sum.splits)

text \<open>
  Claim C1, amended. For every reported frame rate of at least 1 the sampling interval is
  \<open>int(rate * 2)\<close>, the floor of twice the rate, and it is at least 2. A frame whose
  1-based counter is not a multiple of the interval is written with the last stored
  detection set drawn on it, verbatim, and nothing else changes. A frame whose counter is
  a multiple of the interval is counted in \<open>analyzed_frames\<close>, and a non-empty result of
  the fresh analysis is what gets stored and drawn. Over a whole source the loop completes
  and \<open>analyzed_frames\<close> is the number of multiples of the interval among the counters.
\<close>

theorem sampling_schedule:
  assumes "1 \<le> rate" and "i = frame_interval (source_fps rate)"
  shows "i = \<lfloor>rate * 2\<rfloor> \<and> 2 \<le> i \<and>
     (\<not> sampled i (processed_frames st + 1) \<longrightarrow>
        process_frame env i st f =
          Inr (st\<lparr> processed_frames := processed_frames st + 1,
                   written := written st @ [draw_all (last_detections st) f] \<rparr>)) \<and>
     (sampled i (processed_frames st + 1) \<longrightarrow>
        (\<exists>st'. process_frame env i st f = Inr st' \<and>
           processed_frames st' = processed_frames st + 1 \<and>
           analyzed_frames st' = analyzed_frames st + 1 \<and>
           (\<forall>buf a. imencode env f = Some buf \<and> analyze env buf = Inr a \<and> results a \<noteq> [] \<longrightarrow>
              last_detections st' = results a \<and>
              written st' = written st @ [draw_all (results a) f]))) \<and>
     (\<exists>st'. frame_loop env i init_state reads = Inr st' \<and>
        processed_frames st' = length (valid_frames reads) \<and>
        analyzed_frames st' =
          length (filter (sampled i) [1 ..< Suc (length (valid_frames reads))]))"
proof -
  have i: "i = \<lfloor>rate * 2\<rfloor>" "2 \<le> i"
    unfolding assms(2) using frame_interval_floor [OF assms(1)] by blast+
  from i(2) have nz: "i \<noteq> 0" by linarith
  from frame_loop_total [OF nz] obtain st' where
    l: "frame_loop env i init_state reads = Inr st'" by blast
  from frame_loop_counters [OF l]
  have c: "processed_frames st' = length (valid_frames reads) \<and>
        analyzed_frames st' =
          length (filter (sampled i) [1 ..< Suc (length (valid_frames reads))])"
    by (simp add: init_state_def)
  have loop: "\<exists>st'. frame_loop env i init_state reads = Inr st' \<and>
        processed_frames st' = length (valid_frames reads) \<and>
        analyzed_frames st' =
          length (filter (sampled i) [1 ..< Suc (length (valid_frames reads))])"
    using l c by blast
  show ?thesis
    using i process_frame_skip [OF nz, of st env f] process_frame_sampled [OF nz, of st env f] loop
    by (intro conjI impI) assumption+
qed

lemma wit_step_one:
  "process_frame wit_video 2 init_state (wit_frame 1) =
     Inr (init_state\<lparr> processed_frames := 1, written := [wit_frame 1] \<rparr>)"
  by (simp add: process_frame_def Let_def sampled_def init_state_def wit_draw_none)

text \<open>The schedule at 1 frame per second (interval 2) on the four-frame source.\<close>

theorem sampling_schedule_witness:
  "(1::real) \<le> 1 \<and> frame_interval (source_fps 1) = 2 \<and>
   \<not> sampled 2 (processed_frames init_state + 1) \<and>
   process_frame wit_video 2 init_state (wit_frame 1) =
     Inr (init_state\<lparr> processed_frames := 1, written := [wit_frame 1] \<rparr>) \<and>
   sampled 2 (processed_frames (init_state\<lparr> processed_frames := 1 \<rparr>) + 1) \<and>
   (\<exists>st'. process_frame wit_video 2 (init_state\<lparr> processed_frames := 1 \<rparr>) (wit_frame 2) = Inr st' \<and>
      processed_frames st' = 2 \<and> analyzed_frames st' = 1) \<and>
   (\<exists>st'. frame_loop wit_video 2 init_state (cap_reads wit_video) = Inr st' \<and>
      processed_frames st' = 4 \<and> analyzed_frames st' = 2)"
proof -
  have r: "(1::real) \<le> 1" by simp
  have i: "(2::int) = frame_interval (source_fps 1)"
    by (simp add: frame_interval_def source_fps_def py_int_def)
  note a = sampling_schedule [OF r i, of init_state wit_video "wit_frame 1" "cap_reads wit_video"]
  note b = sampling_schedule [OF r i, of "init_state\<lparr> processed_frames := 1 \<rparr>" wit_video
             "wit_frame 2" "cap_reads wit_video"]
  have ns: "\<not> sampled 2 (processed_frames init_state + 1)"
    by (simp add: sampled_def init_state_def)
  have s: "sampled 2 (processed_frames (init_state\<lparr> processed_frames := 1 \<rparr>) + 1)"
    by (simp add: sampled_def)
  have a0: "analyzed_frames init_state = 0" by (simp add: init_state_def)
  have v: "length (valid_frames (cap_reads wit_video)) = 4"
    by (simp add: wit_video_def wit_frame_def)
  have f: "length (filter (sampled 2) [1 ..< Suc 4]) = 2"
    by (simp add: sampled_def upt_rec)
  from a ns have "process_frame wit_video 2 init_state (wit_frame 1) =
          Inr (init_state\<lparr> processed_frames := processed_frames init_state + 1,
                   written := written init_state @ [draw_all (last_detections init_state) (wit_frame 1)] \<rparr>)"
    by blast
  then have 1: "process_frame wit_video 2 init_state (wit_frame 1) =
     Inr (init_state\<lparr> processed_frames := 1, written := [wit_frame 1] \<rparr>)"
    by (simp add: init_state_def wit_draw_none)
  from b s have "\<exists>st'. process_frame wit_video 2 (init_state\<lparr> processed_frames := 1 \<rparr>) (wit_frame 2) = Inr st' \<and>
      processed_frames st' = processed_frames (init_state\<lparr> processed_frames := 1 \<rparr>) + 1 \<and>
      analyzed_frames st' = analyzed_frames (init_state\<lparr> processed_frames := 1 \<rparr>) + 1"
    by blast
  then have 2: "\<exists>st'. process_frame wit_video 2 (init_state\<lparr> processed_frames := 1 \<rparr>) (wit_frame 2) = Inr st' \<and>
      processed_frames st' = 2 \<and> analyzed_frames st' = 1"
    by (auto simp: a0 numeral_2_eq_2)
  from a have "\<exists>st'. frame_loop wit_video 2 init_state (cap_reads wit_video) = Inr st' \<and>
        processed_frames st' = length (valid_frames (cap_reads wit_video)) \<and>
        analyzed_frames st' =
          length (filter (sampled 2) [1 ..< Suc (length (valid_frames (cap_reads wit_video)))])"
    by blast
  then have 3: "\<exists>st'. frame_loop wit_video 2 init_state (cap_reads wit_video) = Inr st' \<and>
      processed_frames st' = 4 \<and> analyzed_frames st' = 2"
    unfolding v f .
  from r i ns 1 s 2 3 show ?thesis by (intro conjI) simp_all
qed

text \<open>
  Claim C2. \<open>last_detections\<close> changes only on an analyzed frame whose analysis returns
  a non-empty list, and then it becomes that list; an analyzed frame with zero faces leaves
  it as it was and is written unannotated; a skipped frame never changes it; it starts
  empty, and while it is empty a skipped frame is written through unannotated.
\<close>

theorem detection_cache_policy:
  assumes "process_frame env i st f = Inr st'"
  shows "(last_detections st' \<noteq> last_detections st \<longrightarrow>
            sampled i (processed_frames st + 1) \<and>
            (\<exists>buf a. imencode env f = Some buf \<and> analyze env buf = Inr a \<and>
                      results a \<noteq> [] \<and> last_detections st' = results a)) \<and>
         (sampled i (processed_frames st + 1) \<longrightarrow>
            (\<forall>buf a. imencode env f = Some buf \<and> analyze env buf = Inr a \<longrightarrow>
               (results a = [] \<longrightarrow>
                  last_detections st' = last_detections st \<and> written st' = written st @ [f]) \<and>
               (results a \<noteq> [] \<longrightarrow> last_detections st' = results a))) \<and>
         (\<not> sampled i (processed_frames st + 1) \<longrightarrow>
            last_detections st' = last_detections st \<and>
            (last_detections st = [] \<longrightarrow> written st' = written st @ [f])) \<and>
         last_detections init_state = []"
proof -
  have i: "i \<noteq> 0" using assms by (auto simp: process_frame_def Let_def split: if_splits)
  have 1: "last_detections st' \<noteq> last_detections st \<longrightarrow>
            sampled i (processed_frames st + 1) \<and>
            (\<exists>buf a. imencode env f = Some buf \<and> analyze env buf = Inr a \<and>
                      results a \<noteq> [] \<and> last_detections st' = results a)"
    using assms i
    by (auto simp: process_frame_def Let_def split: if_splits option.splits sum.splits)
  have 2: "sampled i (processed_frames st + 1) \<longrightarrow>
            (\<forall>buf a. imencode env f = Some buf \<and> analyze env buf = Inr a \<longrightarrow>
               (results a = [] \<longrightarrow>
                  last_detections st' = last_detections st \<and> written st' = written st @ [f]) \<and>
               (results a \<noteq> [] \<longrightarrow> last_detections st' = results a))"
    using assms i
    by (auto simp: process_frame_def Let_def split: if_splits option.splits sum.splits)
  have 3: "\<not> sampled i (processed_frames st + 1) \<longrightarrow>
            last_detections st' = last_detections st \<and>
            (last_detections st = [] \<longrightarrow> written st' = written st @ [f])"
    using assms i
    by (auto simp: process_frame_def Let_def draw_all_def split: if_splits)
  have 4: "last_detections init_state = []" by (simp add: init_state_def)
  from 1 2 3 4 show ?thesis by (intro conjI)
qed

lemma wit_no_faces_step:
  "process_frame wit_no_faces 5 wit_final_state (wit_frame 5) =
     Inr (wit_final_state\<lparr> processed_frames := 5, analyzed_frames := 3,
            written := written wit_final_state @ [wit_frame 5] \<rparr>)"
  by (simp add: process_frame_def Let_def sampled_def wit_no_faces_def wit_video_def
        wit_final_state_def)

text \<open>An analyzed frame with zero faces after a detection was stored, and a skipped first
  frame.\<close>

theorem detection_cache_policy_witness:
  "process_frame wit_no_faces 5 wit_final_state (wit_frame 5) =
     Inr (wit_final_state\<lparr> processed_frames := 5, analyzed_frames := 3,
            written := written wit_final_state @ [wit_frame 5] \<rparr>) \<and>
   sampled 5 (processed_frames wit_final_state + 1) \<and>
   imencode wit_no_faces (wit_frame 5) = Some ''jpeg'' \<and>
   analyze wit_no_faces ''jpeg'' = Inr \<lparr> num_faces = 0, results = [] \<rparr> \<and>
   last_detections (wit_final_state\<lparr> processed_frames := 5, analyzed_frames := 3,
            written := written wit_final_state @ [wit_frame 5] \<rparr>) = [wit_detection] \<and>
   process_frame wit_video 2 init_state (wit_frame 1) =
     Inr (init_state\<lparr> processed_frames := 1, written := [wit_frame 1] \<rparr>) \<and>
   \<not> sampled 2 (processed_frames init_state + 1) \<and>
   written (init_state\<lparr> processed_frames := 1, written := [wit_frame 1] \<rparr>) =
     written init_state @ [wit_frame 1]"
proof -
  let ?st' = "wit_final_state\<lparr> processed_frames := 5, analyzed_frames := 3,
            written := written wit_final_state @ [wit_frame 5] \<rparr>"
  let ?a = "\<lparr> num_faces = 0, results = [] \<rparr>"
  have s: "sampled 5 (processed_frames wit_final_state + 1)"
    by (simp add: sampled_def wit_final_state_def)
  have e: "imencode wit_no_faces (wit_frame 5) = Some ''jpeg''"
    by (simp add: wit_no_faces_def wit_video_def)
  have a: "analyze wit_no_faces ''jpeg'' = Inr ?a"
    by (simp add: wit_no_faces_def)
  have ld: "last_detections wit_final_state = [wit_detection]"
    by (simp add: wit_final_state_def)
  from detection_cache_policy [OF wit_no_faces_step] s
  have "\<forall>buf a. imencode wit_no_faces (wit_frame 5) = Some buf \<and> analyze wit_no_faces buf = Inr a \<longrightarrow>
               (results a = [] \<longrightarrow>
                  last_detections ?st' = last_detections wit_final_state \<and>
                  written ?st' = written wit_final_state @ [wit_frame 5])"
    by blast
  with e a have 1: "last_detections ?st' = last_detections wit_final_state"
    by (metis analysis.select_convs(2))
  have ns: "\<not> sampled 2 (processed_frames init_state + 1)"
    by (simp add: sampled_def init_state_def)
  have l0: "last_detections init_state = []" by (simp add: init_state_def)
  from detection_cache_policy [OF wit_step_one] ns l0
  have 2: "written (init_state\<lparr> processed_frames := 1, written := [wit_frame 1] \<rparr>) =
     written init_state @ [wit_frame 1]"
    by blast
  from wit_no_faces_step s e a 1 ld wit_step_one ns 2 show ?thesis
    by (intro conjI) simp_all
qed

lemma wit_valid_frames:
  "valid_frames (cap_reads wit_video) = [wit_frame 1, wit_frame 2, wit_frame 3, wit_frame 4]"
  by (simp add: wit_video_def wit_frame_def)

lemma wit_encoder_fails_loop:
  "frame_loop wit_encoder_fails 2 init_state (cap_reads wit_encoder_fails) =
     Inr (init_state\<lparr> processed_frames := 4, analyzed_frames := 2,
                      written := [wit_frame 1, wit_frame 3] \<rparr>)"
proof -
  have r: "cap_reads wit_encoder_fails =
      [(True, Some (wit_frame 1)), (True, None), (True, Some (wit_frame 2)),
       (True, Some (wit_frame 3)), (True, Some (wit_frame 4)), (False, None)]"
    by (simp add: wit_encoder_fails_def wit_video_def)
  have e: "imencode wit_encoder_fails f = None" for f by (simp add: wit_encoder_fails_def)
  have s: "length (shape (wit_frame k)) = 3" for k by (simp add: wit_frame_def)
  show ?thesis
    unfolding r
    by (simp add: s process_frame_def sampled_def e wit_draw_none init_state_def Let_def)
qed

lemma wit_encoder_fails_interval:
  "frame_interval (source_fps (cap_fps wit_encoder_fails)) = 2"
  by (simp add: wit_encoder_fails_def wit_video_def source_fps_def frame_interval_def py_int_def)

text \<open>
  Claim C3 against the code: when JPEG encoding of a sampled frame fails, the loop
  continues without writing it. Of the four valid frames of the source below, the second
  and the fourth are never written.
\<close>

theorem encode_failure_drops_frame:
  "valid_frames (cap_reads wit_encoder_fails) =
     [wit_frame 1, wit_frame 2, wit_frame 3, wit_frame 4] \<and>
   (\<exists>res eff. process_video wit_encoder_fails ''/data/in.mp4'' = Inr (res, eff) \<and>
      sink eff = [wit_frame 1, wit_frame 3])"
proof -
  have v: "valid_frames (cap_reads wit_encoder_fails) =
     [wit_frame 1, wit_frame 2, wit_frame 3, wit_frame 4]"
    using wit_valid_frames by (simp add: wit_encoder_fails_def)
  have p: "path_exists wit_encoder_fails ''/data/in.mp4''" "cap_opened wit_encoder_fails ''/data/in.mp4''"
    by (simp_all add: wit_encoder_fails_def wit_video_def)
  have l: "frame_loop wit_encoder_fails (frame_interval (source_fps (cap_fps wit_encoder_fails)))
             init_state (cap_reads wit_encoder_fails) =
     Inr (init_state\<lparr> processed_frames := 4, analyzed_frames := 2,
                      written := [wit_frame 1, wit_frame 3] \<rparr>)"
    unfolding wit_encoder_fails_interval by (rule wit_encoder_fails_loop)
  from process_video_Inr [OF p l] v show ?thesis by simp
qed

lemma wit_slow_interval: "frame_interval (source_fps (cap_fps wit_slow_source)) = 0"
  by (simp add: wit_slow_source_def wit_video_def source_fps_def frame_interval_def py_int_def)

text \<open>
  Claim C8 against the code: a source that exists and opens but reports 0.25 frames per
  second gives \<open>frame_interval = int(0.5) = 0\<close>, and the first valid frame raises
  \<open>ZeroDivisionError\<close> out of \<open>process_video\<close>.
\<close>

theorem low_frame_rate_aborts:
  "path_exists wit_slow_source ''/data/in.mp4'' \<and> cap_opened wit_slow_source ''/data/in.mp4'' \<and>
   cap_fps wit_slow_source = 1 / 4 \<and>
   process_video wit_slow_source ''/data/in.mp4'' = Inl ZeroDivisionError"
proof -
  have p: "path_exists wit_slow_source ''/data/in.mp4''" "cap_opened wit_slow_source ''/data/in.mp4''"
    by (simp_all add: wit_slow_source_def wit_video_def)
  have r: "cap_reads wit_slow_source =
      [(True, Some (wit_frame 1)), (True, None), (True, Some (wit_frame 2)),
       (True, Some (wit_frame 3)), (True, Some (wit_frame 4)), (False, None)]"
    by (simp add: wit_slow_source_def wit_video_def)
  have s: "length (shape (wit_frame k)) = 3" for k by (simp add: wit_frame_def)
  have l: "frame_loop wit_slow_source (frame_interval (source_fps (cap_fps wit_slow_source)))
             init_state (cap_reads wit_slow_source) = Inl ZeroDivisionError"
    unfolding wit_slow_interval r by (simp add: s process_frame_zero)
  from process_video_loop_error [OF p l] p show ?thesis
    by (simp add: wit_slow_source_def)
qed

text \<open>With a sampling interval other than zero, a source that opens always yields a result.\<close>

lemma process_video_completes:
  assumes "path_exists env video_path" "cap_opened env video_path"
    "frame_interval (source_fps (cap_fps env)) \<noteq> 0"
  shows "\<exists>res eff. process_video env video_path = Inr (res, eff)"
proof -
  from frame_loop_total [OF assms(3)] obtain st where
    "frame_loop env (frame_interval (source_fps (cap_fps env))) init_state (cap_reads env) = Inr st"
    by blast
  from process_video_Inr [OF assms(1,2) this] show ?thesis by blast
qed










lemma summarize_initial:
  "summarize (map (\<lambda>e. (e, 0)) EMOTIONS) = map (\<lambda>e. (e, 0)) EMOTIONS"
  by (simp add: summarize_def EMOTIONS_def round2_zero)

text \<open>
  Claim C6. When the source opens, the sampling interval is not zero and every analysis
  call raises, the run completes: \<open>frames_analyzed\<close> counts every sampled frame, the
  summary is zero for all seven labels, and every frame written is an input frame with
  nothing drawn on it.
\<close>

theorem classifier_failure_tolerated:
  assumes "path_exists env video_path" "cap_opened env video_path"
    "frame_interval (source_fps (cap_fps env)) \<noteq> 0"
    "\<forall>b. \<exists>e. analyze env b = Inl e"
  shows "\<exists>res eff. process_video env video_path = Inr (res, eff) \<and>
     frames_analyzed res =
       length (filter (sampled (frame_interval (source_fps (cap_fps env))))
                 [1 ..< Suc (length (valid_frames (cap_reads env)))]) \<and>
     summary res = map (\<lambda>e. (e, 0)) EMOTIONS \<and>
     sink eff =
       map snd (filter (\<lambda>kf. \<not> (sampled (frame_interval (source_fps (cap_fps env))) (fst kf) \<and>
                                  imencode env (snd kf) = None))
                 (zip [1 ..< Suc (length (valid_frames (cap_reads env)))]
                      (valid_frames (cap_reads env))))"
proof -
  let ?i = "frame_interval (source_fps (cap_fps env))"
  from frame_loop_total [OF assms(3)] obtain st where
    l: "frame_loop env ?i init_state (cap_reads env) = Inr st"
    by blast
  have q: "\<forall>f \<in> set (valid_frames (cap_reads env)). \<forall>buf a.
       imencode env f = Some buf \<longrightarrow> analyze env buf = Inr a \<longrightarrow> results a = []"
    using assms(4) by (metis sum.distinct(1))
  have l0: "last_detections init_state = []" by (simp add: init_state_def)
  from frame_loop_quiet [OF l l0 q] have
    c: "emotion_counts st = map (\<lambda>e. (e, 0)) EMOTIONS" and
    w: "written st =
          map snd (filter (\<lambda>kf. \<not> (sampled ?i (fst kf) \<and> imencode env (snd kf) = None))
                 (zip [1 ..< Suc (length (valid_frames (cap_reads env)))]
                      (valid_frames (cap_reads env))))"
    by (simp_all add: init_state_def)
  from frame_loop_counters [OF l] have
    a: "analyzed_frames st =
          length (filter (sampled ?i) [1 ..< Suc (length (valid_frames (cap_reads env)))])"
    by (simp add: init_state_def)
  note r = process_video_Inr [OF assms(1,2) l]
  show ?thesis
    unfolding r by (simp add: c w a summarize_initial)
qed

lemma wit_classifier_raises_valid:
  "valid_frames (cap_reads wit_classifier_raises) =
     [wit_frame 1, wit_frame 2, wit_frame 3, wit_frame 4]"
  using wit_valid_frames by (simp add: wit_classifier_raises_def)

text \<open>The four-frame source with a classifier that always raises.\<close>

theorem classifier_failure_tolerated_witness:
  "path_exists wit_classifier_raises ''/data/in.mp4'' \<and>
   cap_opened wit_classifier_raises ''/data/in.mp4'' \<and>
   frame_interval (source_fps (cap_fps wit_classifier_raises)) = 2 \<and>
   analyze wit_classifier_raises ''jpeg'' = Inl (ExternalError ''predict'') \<and>
   (\<exists>res eff. process_video wit_classifier_raises ''/data/in.mp4'' = Inr (res, eff) \<and>
      frames_analyzed res = 2 \<and>
      summary res = map (\<lambda>e. (e, 0)) EMOTIONS \<and>
      sink eff = [wit_frame 1, wit_frame 2, wit_frame 3, wit_frame 4])"
proof -
  let ?E = wit_classifier_raises
  have p: "path_exists ?E ''/data/in.mp4''" "cap_opened ?E ''/data/in.mp4''"
    by (simp_all add: wit_classifier_raises_def wit_video_def)
  have i: "frame_interval (source_fps (cap_fps ?E)) = 2"
    by (simp add: wit_classifier_raises_def wit_video_def source_fps_def frame_interval_def
          py_int_def)
  then have nz: "frame_interval (source_fps (cap_fps ?E)) \<noteq> 0" by simp
  have a: "analyze ?E b = Inl (ExternalError ''predict'')" for b
    by (simp add: wit_classifier_raises_def)
  then have all: "\<forall>b. \<exists>e. analyze ?E b = Inl e" by blast
  have e: "imencode ?E f = Some ''jpeg''" for f
    by (simp add: wit_classifier_raises_def wit_video_def)
  from classifier_failure_tolerated [OF p nz all]
  have "\<exists>res eff. process_video ?E ''/data/in.mp4'' = Inr (res, eff) \<and>
      frames_analyzed res = 2 \<and>
      summary res = map (\<lambda>e. (e, 0)) EMOTIONS \<and>
      sink eff = [wit_frame 1, wit_frame 2, wit_frame 3, wit_frame 4]"
    unfolding i wit_classifier_raises_valid by (auto simp: e sampled_def upt_rec numeral_2_eq_2)
  with p i a show ?thesis by blast
qed





text \<open>FFmpeg exiting with status 1 in both stages.\<close>

theorem post_processing_fallbacks_witness:
  "subprocess_run wit_ffmpeg_fails
      (merge_command wit_ffmpeg_fails ''/data/in.mp4'' ''/tmp/processed_ab12cd34.mp4''
         (replace_str ''.mp4'' ''_with_audio.mp4'' ''/tmp/processed_ab12cd34.mp4'')) = Inr 1 \<and>
   merge_audio wit_ffmpeg_fails ''/data/in.mp4'' ''/tmp/processed_ab12cd34.mp4'' =
     ''/tmp/processed_ab12cd34.mp4'' \<and>
   compress_video wit_ffmpeg_fails ''/tmp/processed_ab12cd34.mp4'' ''/tmp/processed_ab12cd34.mp4'' =
     ''/tmp/processed_ab12cd34.mp4'' \<and>
   path_exists wit_ffmpeg_fails ''/tmp/a.mp4'' \<and>
   compress_video wit_ffmpeg_fails ''/tmp/a.mp4'' ''/tmp/b.mp4'' = ''/tmp/a.mp4''"
proof -
  let ?E = wit_ffmpeg_fails
  have r: "subprocess_run ?E c = Inr 1" for c by (simp add: wit_ffmpeg_fails_def)
  have e: "path_exists ?E p" for p by (simp add: wit_ffmpeg_fails_def wit_video_def)
  note t = post_processing_fallbacks [of ?E "''/data/in.mp4''" "''/tmp/processed_ab12cd34.mp4''"
             "''/tmp/processed_ab12cd34.mp4''" "''/tmp/a.mp4''" "''/tmp/b.mp4''"]
  have nz: "(1::int) \<noteq> 0" by simp
  from t r nz have 1: "merge_audio ?E ''/data/in.mp4'' ''/tmp/processed_ab12cd34.mp4'' =
     ''/tmp/processed_ab12cd34.mp4''"
    by blast
  from t r nz have 2: "compress_video ?E ''/tmp/processed_ab12cd34.mp4'' ''/tmp/processed_ab12cd34.mp4'' =
     ''/tmp/processed_ab12cd34.mp4''"
    by blast
  from t r nz e have 3: "compress_video ?E ''/tmp/a.mp4'' ''/tmp/b.mp4'' = ''/tmp/a.mp4''"
    by blast
  from r 1 2 e 3 show ?thesis by blast
qed

end
